theory Spec2Isabelle
  imports Main "HOL-Library.Sublist"
begin

section \<open>Python text\<close>

text \<open>
  A Python \<^verbatim>\<open>str\<close> is a \<^typ>\<open>string\<close>. ASCII characters are themselves; the
  pictographs that \<^verbatim>\<open>main.py\<close> puts in front of its messages lie outside the
  range of \<^typ>\<open>char\<close> and are carried as their UTF-8 bytes. Whitespace is what
  \<^verbatim>\<open>str.isspace\<close> accepts in the ASCII range: tab, line feed, vertical tab, form
  feed, carriage return, the four separators 0x1C..0x1F and the blank.
\<close>

definition isspace :: "char \<Rightarrow> bool" where
  "isspace c = (c \<in> set [CHR 0x09, CHR 0x0A, CHR 0x0B, CHR 0x0C, CHR 0x0D,
                          CHR 0x1C, CHR 0x1D, CHR 0x1E, CHR 0x1F, CHR 0x20])"

text \<open>\<^verbatim>\<open>s.strip()\<close>: leading and trailing whitespace removed.\<close>

definition strip :: "string \<Rightarrow> string" where
  "strip s = rev (dropWhile isspace (rev (dropWhile isspace s)))"

text \<open>\<^verbatim>\<open>sub in s\<close> on strings: \<open>sub\<close> occurs in \<open>s\<close> as a contiguous run.\<close>

fun py_in :: "string \<Rightarrow> string \<Rightarrow> bool" where
  "py_in sub [] = (sub = [])"
| "py_in sub (c # cs) = (prefix sub (c # cs) \<or> py_in sub cs)"

text \<open>\<^verbatim>\<open>s.endswith(t)\<close>.\<close>

definition endswith :: "string \<Rightarrow> string \<Rightarrow> bool" where
  "endswith s t = prefix (rev t) (rev s)"

text \<open>\<^verbatim>\<open>s.upper()\<close>, on the ASCII letters.\<close>

definition upper_char :: "char \<Rightarrow> char" where
  "upper_char c =
     (let n = (of_char c :: nat) in if 97 \<le> n \<and> n \<le> 122 then char_of (n - 32) else c)"

definition upper :: "string \<Rightarrow> string" where
  "upper s = map upper_char s"

text \<open>\<^verbatim>\<open>str(n)\<close> for a non-negative integer: its decimal digits.\<close>

fun str_nat :: "nat \<Rightarrow> string" where
  "str_nat n = (if n < 10 then [char_of (48 + n)]
                else str_nat (n div 10) @ [char_of (48 + n mod 10)])"

declare str_nat.simps [simp del]

section \<open>The teed log sink (\<^verbatim>\<open>TeeOutput\<close> in \<^verbatim>\<open>capture_agent_output\<close>)\<close>

text \<open>A queue entry is the tuple \<^verbatim>\<open>(sender, text, kind)\<close> the code puts.\<close>

type_synonym msg = "string \<times> string \<times> string"

text \<open>
  \<^verbatim>\<open>format_agent_log\<close>: the first substring test that succeeds chooses the marker;
  \<open>None\<close> for a blank line.
\<close>

definition format_agent_log :: "string \<Rightarrow> string option" where
  "format_agent_log l =
     (let line = strip l in
      if line = [] then None
      else if py_in ''Iteration'' line
        then Some ([CHR 0xF0, CHR 0x9F, CHR 0x94, CHR 0x84] @ '' '' @ line)
      else if py_in ''Evaluate'' line
        then Some ([CHR 0xF0, CHR 0x9F, CHR 0x94, CHR 0x8D] @ '' '' @ line)
      else if py_in ''Memory'' line
        then Some ([CHR 0xF0, CHR 0x9F, CHR 0xA7, CHR 0xA0] @ '' '' @ line)
      else if py_in ''Thought'' line
        then Some ([CHR 0xF0, CHR 0x9F, CHR 0x92, CHR 0xAD] @ '' '' @ line)
      else if py_in ''Action'' line
        then Some ([CHR 0xE2, CHR 0x9A, CHR 0xA1] @ '' '' @ line)
      else if py_in ''Observation'' line
        then Some ([CHR 0xF0, CHR 0x9F, CHR 0x91, CHR 0x81, CHR 0xEF, CHR 0xB8, CHR 0x8F]
                   @ '' '' @ line)
      else if py_in ''Final Answer'' line
        then Some ([CHR 0xE2, CHR 0x9C, CHR 0x85] @ '' '' @ line)
      else if py_in ''ERROR'' (upper line) \<or> py_in ''EXCEPTION'' (upper line)
        then Some ([CHR 0xE2, CHR 0x9D, CHR 0x8C] @ '' '' @ line)
      else if py_in ''WARNING'' (upper line)
        then Some ([CHR 0xE2, CHR 0x9A, CHR 0xA0, CHR 0xEF, CHR 0xB8, CHR 0x8F] @ '' '' @ line)
      else Some line)"

text \<open>
  One \<^verbatim>\<open>TeeOutput\<close> object: its sender name and its line buffer. Its other
  attributes are references: \<^verbatim>\<open>original\<close> to a terminal stream, \<^verbatim>\<open>captured\<close> to the
  \<^verbatim>\<open>StringIO\<close> of the capture and \<^verbatim>\<open>message_queue\<close> to the queue of the application,
  all three held by the application state below.
\<close>

record tee =
  sender :: string
  buffer :: string

text \<open>
  The forwarding step of \<^verbatim>\<open>write\<close> and \<^verbatim>\<open>flush\<close>: a line whose stripped text is
  not empty is formatted and, when the formatter returns a text, put on the queue.
\<close>

definition forward :: "string \<Rightarrow> string \<Rightarrow> msg list \<Rightarrow> msg list" where
  "forward who line q =
     (if strip line \<noteq> [] then
        (case format_agent_log (strip line) of
           Some formatted_line \<Rightarrow>
             if formatted_line \<noteq> [] then q @ [(who, formatted_line, ''agent'')] else q
         | None \<Rightarrow> q)
      else q)"

text \<open>
  The loop \<^verbatim>\<open>while '\n' in self.buffer: line, self.buffer = self.buffer.split('\n', 1)\<close>.
\<close>

function drain :: "string \<Rightarrow> string \<Rightarrow> msg list \<Rightarrow> string \<times> msg list" where
  "drain who buf q =
     (if CHR 0x0A \<in> set buf then
        drain who (tl (dropWhile (\<lambda>c. c \<noteq> CHR 0x0A) buf))
              (forward who (takeWhile (\<lambda>c. c \<noteq> CHR 0x0A) buf) q)
      else (buf, q))"
  by pat_completeness auto
termination
proof (relation "measure (\<lambda>(who, buf, q). length buf)")
  show "wf (measure (\<lambda>(who, buf, q). length buf))" by simp
next
  fix who :: string and buf :: string and q :: "msg list"
  assume "CHR 0x0A \<in> set buf"
  then have "dropWhile (\<lambda>c. c \<noteq> CHR 0x0A) buf \<noteq> []" by simp
  then have "length (tl (dropWhile (\<lambda>c. c \<noteq> CHR 0x0A) buf))
             < length (dropWhile (\<lambda>c. c \<noteq> CHR 0x0A) buf)"
    by (cases "dropWhile (\<lambda>c. c \<noteq> CHR 0x0A) buf") simp_all
  also have "\<dots> \<le> length buf" by (rule length_dropWhile_le)
  finally show "((who, tl (dropWhile (\<lambda>c. c \<noteq> CHR 0x0A) buf),
                  forward who (takeWhile (\<lambda>c. c \<noteq> CHR 0x0A) buf) q), (who, buf, q))
                \<in> measure (\<lambda>(who, buf, q). length buf)"
    by simp
qed

declare drain.simps [simp del]

section \<open>JSON documents and the files of the working directory\<close>

text \<open>
  What \<^verbatim>\<open>json.load\<close> returns and \<^verbatim>\<open>json.dump\<close> takes. Numbers are the integers
  (a non-integer number behaves like an integer wherever this program looks at one).
\<close>

datatype json =
    JNull
  | JBool bool
  | JNum int
  | JStr string
  | JArr "json list"
  | JObj "(string \<times> json) list"

text \<open>
  A file: absent; present but \<^verbatim>\<open>open\<close> raises (with the exception's text); present
  with a content that \<^verbatim>\<open>json.load\<close> rejects (with the text of the decode error); or
  holding a JSON document.
\<close>

datatype file_state = Absent | Unreadable string | Malformed string | Json json

text \<open>
  How \<^verbatim>\<open>with open(name, 'w') as f: json.dump(data, f)\<close> can go wrong: \<^verbatim>\<open>open\<close>
  raises and the file is untouched, or the dump raises after the file was truncated and
  leaves some other content behind. Both carry the text of the exception.
\<close>

datatype fault = OpenFails string | DumpFails string file_state

text \<open>
  The environment of a callback: the wall clock as \<^verbatim>\<open>strftime("%H:%M:%S")\<close> prints
  it, the write fault of each file name (if any), whether the agent packages were
  imported, and the exception text of the agent constructors when they raise.
\<close>

record env =
  clock :: string
  faults :: "string \<Rightarrow> fault option"
  DEPENDENCIES_AVAILABLE :: bool
  agent_init_error :: "string option"

section \<open>The application state (\<^verbatim>\<open>WindowsAgentGUI\<close>)\<close>

record chat_message =
  timestamp :: string
  msg_sender :: string
  message :: string
  msg_type :: string

text \<open>
  The \<^verbatim>\<open>asyncio.Task\<close> that runs the coroutine and is held in \<^verbatim>\<open>current_task\<close>:
  \<open>is_done\<close> is \<^verbatim>\<open>done()\<close>, \<open>is_cancelled\<close> is \<^verbatim>\<open>cancelled()\<close>, and
  \<open>cancel_requested\<close> tells that \<^verbatim>\<open>cancel()\<close> was called on the task while it was not
  done. A task is done, and possibly cancelled, only once its coroutine has ended; a
  request made before that is delivered at the next \<^verbatim>\<open>await\<close> of the coroutine.
\<close>

record task =
  is_done :: bool
  is_cancelled :: bool
  cancel_requested :: bool

text \<open>
  The fields of the object that the modelled methods read or write. \<open>agent\<close> tells whether
  \<^verbatim>\<open>self.agent\<close> holds an agent; \<open>task_thread\<close> is the last thread object made (named by
  its argument) and \<open>threads_started\<close> the arguments of every thread started;
  \<open>adapter_calls\<close> the queries \<^verbatim>\<open>self.agent.invoke\<close> received. \<open>settings_rules\<close> is
  \<^verbatim>\<open>self.settings["rules"]\<close>; \<open>task_labels\<close> the sidebar labels, each with its text and
  the task bound to its click; \<open>dialogs\<close> the message boxes shown (kind, title, text);
  \<open>original_stdout\<close> and \<open>original_stderr\<close> the text the terminal has received.
  \<open>sys_stdout\<close> and \<open>sys_stderr\<close> are the streams of the process: \<open>None\<close> for the
  terminal stream itself, the tee while \<^verbatim>\<open>capture_agent_output\<close> has replaced it;
  \<open>captured_output\<close> is the \<^verbatim>\<open>StringIO\<close> of that capture.
\<close>

record gui =
  agent :: bool
  current_api_key :: string
  is_task_running :: bool
  current_task :: "task option"
  task_thread :: "string option"
  threads_started :: "string list"
  adapter_calls :: "string list"
  message_queue :: "msg list"
  chat_history :: "chat_message list"
  task_history :: "string list"
  settings_rules :: "string list"
  settings_theme :: string
  command_entry :: string
  rule_entries :: "string list"
  chat_display :: string
  task_labels :: "(string \<times> string) list"
  start_button :: string
  stop_button :: string
  settings_window :: bool
  dialogs :: "(string \<times> string \<times> string) list"
  original_stdout :: string
  original_stderr :: string
  sys_stdout :: "tee option"
  sys_stderr :: "tee option"
  captured_output :: string
  files :: "string \<Rightarrow> file_state"

section \<open>The output streams\<close>

datatype stream = Stdout | Stderr

definition sys_stream :: "stream \<Rightarrow> gui \<Rightarrow> tee option" where
  "sys_stream st s = (case st of Stdout \<Rightarrow> sys_stdout s | Stderr \<Rightarrow> sys_stderr s)"

definition set_sys_stream :: "stream \<Rightarrow> tee option \<Rightarrow> gui \<Rightarrow> gui" where
  "set_sys_stream st t s =
     (case st of Stdout \<Rightarrow> s\<lparr>sys_stdout := t\<rparr> | Stderr \<Rightarrow> s\<lparr>sys_stderr := t\<rparr>)"

text \<open>Writing to a terminal stream.\<close>

definition to_terminal :: "stream \<Rightarrow> string \<Rightarrow> gui \<Rightarrow> gui" where
  "to_terminal st text s =
     (case st of
        Stdout \<Rightarrow> s\<lparr>original_stdout := original_stdout s @ text\<rparr>
      | Stderr \<Rightarrow> s\<lparr>original_stderr := original_stderr s @ text\<rparr>)"

text \<open>
  \<^verbatim>\<open>TeeOutput.write\<close> of the tee that stands for stream \<open>st\<close>: the text goes to the
  terminal and to the capture buffer, then the complete lines of the line buffer go to the
  queue.
\<close>

definition tee_write :: "stream \<Rightarrow> tee \<Rightarrow> string \<Rightarrow> gui \<Rightarrow> gui" where
  "tee_write st t text s =
     (case drain (sender t) (buffer t @ text) (message_queue s) of
        (buf', q') \<Rightarrow>
          set_sys_stream st (Some (t\<lparr>buffer := buf'\<rparr>))
            ((to_terminal st text s)\<lparr>captured_output := captured_output s @ text,
                                      message_queue := q'\<rparr>))"

text \<open>\<^verbatim>\<open>TeeOutput.flush\<close>: a rest that is not blank goes to the queue and the buffer is emptied.\<close>

definition tee_flush :: "stream \<Rightarrow> tee \<Rightarrow> gui \<Rightarrow> gui" where
  "tee_flush st t s =
     (if strip (buffer t) \<noteq> [] then
        set_sys_stream st (Some (t\<lparr>buffer := []\<rparr>))
          (s\<lparr>message_queue :=
               (case format_agent_log (strip (buffer t)) of
                  Some formatted_line \<Rightarrow>
                    if formatted_line \<noteq> []
                    then message_queue s @ [(sender t, formatted_line, ''agent'')]
                    else message_queue s
                | None \<Rightarrow> message_queue s)\<rparr>)
      else s)"

text \<open>
  \<^verbatim>\<open>sys.stdout.write(text)\<close> or \<^verbatim>\<open>sys.stderr.write(text)\<close>, and the same for
  \<^verbatim>\<open>flush()\<close>, on whatever the stream is bound to at that moment.
\<close>

definition write_stream :: "stream \<Rightarrow> string \<Rightarrow> gui \<Rightarrow> gui" where
  "write_stream st text s =
     (case sys_stream st s of None \<Rightarrow> to_terminal st text s | Some t \<Rightarrow> tee_write st t text s)"

definition flush_stream :: "stream \<Rightarrow> gui \<Rightarrow> gui" where
  "flush_stream st s = (case sys_stream st s of None \<Rightarrow> s | Some t \<Rightarrow> tee_flush st t s)"

text \<open>
  \<^verbatim>\<open>print(text)\<close>: the text and then a line feed are written to \<^verbatim>\<open>sys.stdout\<close>, which
  is the terminal or, during an adapter call, the tee.
\<close>

definition print :: "string \<Rightarrow> gui \<Rightarrow> gui" where
  "print text s = write_stream Stdout [CHR 0x0A] (write_stream Stdout text s)"

section \<open>Persistence\<close>

text \<open>
  \<^verbatim>\<open>with open(name, 'w') as f: json.dump(data, f, indent=2)\<close>: the new state and the
  text of the exception raised, if any.
\<close>

definition open_and_dump :: "env \<Rightarrow> string \<Rightarrow> json \<Rightarrow> gui \<Rightarrow> string option \<times> gui" where
  "open_and_dump E name data s =
     (case faults E name of
        None \<Rightarrow> (None, s\<lparr>files := (files s)(name := Json data)\<rparr>)
      | Some (OpenFails e) \<Rightarrow> (Some e, s)
      | Some (DumpFails e left) \<Rightarrow> (Some e, s\<lparr>files := (files s)(name := left)\<rparr>))"

definition json_of_chat :: "chat_message \<Rightarrow> json" where
  "json_of_chat m =
     JObj [(''timestamp'', JStr (timestamp m)), (''sender'', JStr (msg_sender m)),
           (''message'', JStr (message m)), (''type'', JStr (msg_type m))]"

definition save_chat_history :: "env \<Rightarrow> gui \<Rightarrow> gui" where
  "save_chat_history E s =
     (case open_and_dump E ''chat_history.json'' (JArr (map json_of_chat (chat_history s))) s of
        (None, s') \<Rightarrow> s'
      | (Some e, s') \<Rightarrow> print (''Error saving chat history: '' @ e) s')"

definition save_task_history :: "env \<Rightarrow> gui \<Rightarrow> gui" where
  "save_task_history E s =
     (case open_and_dump E ''task_history.json'' (JArr (map JStr (task_history s))) s of
        (None, s') \<Rightarrow> s'
      | (Some e, s') \<Rightarrow> print (''Error saving task history: '' @ e) s')"

definition save_settings_to_file :: "env \<Rightarrow> gui \<Rightarrow> gui" where
  "save_settings_to_file E s =
     (case open_and_dump E ''agent_settings.json''
             (JObj [(''rules'', JArr (map JStr (settings_rules s))),
                    (''theme'', JStr (settings_theme s))]) s of
        (None, s') \<Rightarrow> s'
      | (Some e, s') \<Rightarrow> print (''Error saving settings: '' @ e) s')"

text \<open>
  \<^verbatim>\<open>_save_rules_to_file\<close> (the leading underscore is dropped): it prints the error and
  raises it again, so the exception text is returned with the state.
\<close>

definition save_rules_to_file :: "env \<Rightarrow> string list \<Rightarrow> gui \<Rightarrow> string option \<times> gui" where
  "save_rules_to_file E rules_list s =
     (case open_and_dump E ''rules.json'' (JArr (map JStr rules_list)) s of
        (None, s') \<Rightarrow> (None, s')
      | (Some e, s') \<Rightarrow> (Some e, print (''Error saving rules to rules.json: '' @ e) s'))"

text \<open>
  \<^verbatim>\<open>add_message\<close>: the line goes to the chat widget, the entry to the chat history, and the
  whole history is saved.
\<close>

definition add_message :: "env \<Rightarrow> string \<Rightarrow> string \<Rightarrow> string \<Rightarrow> gui \<Rightarrow> gui" where
  "add_message E who text kind s =
     save_chat_history E
       (s\<lparr>chat_display := chat_display s @ ''['' @ clock E @ ''] '' @ who @ '': '' @ text
                            @ [CHR 0x0A, CHR 0x0A],
          chat_history := chat_history s @
             [\<lparr>timestamp = clock E, msg_sender = who, message = text, msg_type = kind\<rparr>]\<rparr>)"

section \<open>Rules\<close>

text \<open>The name Python gives the type of a JSON value, for the text of an attribute error.\<close>

fun type_name :: "json \<Rightarrow> string" where
  "type_name JNull = ''NoneType''"
| "type_name (JBool b) = ''bool''"
| "type_name (JNum n) = ''int''"
| "type_name (JStr x) = ''str''"
| "type_name (JArr xs) = ''list''"
| "type_name (JObj kvs) = ''dict''"

text \<open>
  The comprehension \<^verbatim>\<open>[rule.strip() for rule in rules if rule.strip()]\<close> over the loaded
  array: the first element that is no string raises an attribute error.
\<close>

fun strip_rules :: "json list \<Rightarrow> string + string list" where
  "strip_rules [] = Inr []"
| "strip_rules (JStr rule # rest) =
     (case strip_rules rest of
        Inl e \<Rightarrow> Inl e
      | Inr out \<Rightarrow> Inr (if strip rule \<noteq> [] then strip rule # out else out))"
| "strip_rules (v # rest) =
     Inl ([CHR 0x27] @ type_name v @ [CHR 0x27] @ '' object has no attribute ''
          @ [CHR 0x27] @ ''strip'' @ [CHR 0x27])"

text \<open>The body of the \<^verbatim>\<open>try\<close> in \<^verbatim>\<open>load_rules\<close>: \<open>Inl\<close> carries the text of an exception.\<close>

fun load_rules_try :: "file_state \<Rightarrow> string + string list" where
  "load_rules_try Absent = Inr []"
| "load_rules_try (Unreadable e) = Inl e"
| "load_rules_try (Malformed e) = Inl e"
| "load_rules_try (Json (JArr xs)) = strip_rules xs"
| "load_rules_try (Json v) = Inr []"

definition load_rules :: "gui \<Rightarrow> string list \<times> gui" where
  "load_rules s =
     (case load_rules_try (files s ''rules.json'') of
        Inr rules \<Rightarrow> (rules, s)
      | Inl e \<Rightarrow> ([], print (''Error loading rules from rules.json: '' @ e) s))"

text \<open>
  The loop of \<^verbatim>\<open>save_rules_from_settings_ui\<close> over the entry fields, with the list
  \<^verbatim>\<open>rules\<close> built so far.
\<close>

fun collect_rules :: "string list \<Rightarrow> string list \<Rightarrow> string list" where
  "collect_rules [] rules = rules"
| "collect_rules (entry # entries) rules =
     (let rule = strip entry in
      if rule \<noteq> [] \<and> rule \<notin> set rules then collect_rules entries (rules @ [rule])
      else collect_rules entries rules)"

definition save_rules_from_settings_ui :: "env \<Rightarrow> gui \<Rightarrow> gui" where
  "save_rules_from_settings_ui E s =
     (let rules = collect_rules (rule_entries s) [] in
      case save_rules_to_file E rules s of
        (Some e, s') \<Rightarrow>
          s'\<lparr>dialogs := dialogs s' @ [(''showerror'', ''Error'', ''Failed to save rules: '' @ e)]\<rparr>
      | (None, s') \<Rightarrow>
          add_message E ''System'' (''Saved '' @ str_nat (length rules) @ '' rules successfully.'')
            ''system'' (s'\<lparr>settings_rules := rules\<rparr>))"

text \<open>
  \<^verbatim>\<open>show_settings\<close>, as far as the state goes: an open window is only focused; otherwise
  the window is made with five rule fields, filled from the first five loaded rules.
\<close>

definition show_settings :: "gui \<Rightarrow> gui" where
  "show_settings s =
     (if settings_window s then s
      else (case load_rules s of (current_rules, s') \<Rightarrow>
              s'\<lparr>settings_window := True,
                 rule_entries := take 5 current_rules
                                 @ replicate (5 - length (take 5 current_rules)) []\<rparr>))"

text \<open>
  The rule block of \<^verbatim>\<open>execute_agent_task_async\<close>: the loop
  \<^verbatim>\<open>for i, rule in enumerate(valid_rules, 1): rules_text += f"{i}. {rule}\n"\<close>.
\<close>

fun number_rules :: "nat \<Rightarrow> string list \<Rightarrow> string \<Rightarrow> string" where
  "number_rules i [] rules_text = rules_text"
| "number_rules i (rule # rest) rules_text =
     number_rules (Suc i) rest (rules_text @ str_nat i @ ''. '' @ rule @ [CHR 0x0A])"

definition valid_rules :: "string list \<Rightarrow> string list" where
  "valid_rules rules = map strip (filter (\<lambda>rule. strip rule \<noteq> []) rules)"

definition enhanced_query :: "string list \<Rightarrow> string \<Rightarrow> string" where
  "enhanced_query rules query =
     (if rules \<noteq> [] \<and> valid_rules rules \<noteq> [] then
        number_rules 1 (valid_rules rules)
          (''IMPORTANT: Follow these rules while completing the task:'' @ [CHR 0x0A])
        @ [CHR 0x0A] @ ''Now complete this task: '' @ query
      else query)"

section \<open>The sidebar and the buttons\<close>

text \<open>
  \<^verbatim>\<open>update_task_history_display\<close>: the labels are made anew from the last eight tasks,
  newest first; a label shows at most forty characters of its task and is bound to the
  whole task.
\<close>

definition update_task_history_display :: "gui \<Rightarrow> gui" where
  "update_task_history_display s =
     (let recent_tasks =
            (if length (task_history s) > 8
             then drop (length (task_history s) - 8) (task_history s)
             else task_history s)
      in s\<lparr>task_labels :=
             map (\<lambda>task. (if length task > 40 then take 40 task @ ''...'' else task, task))
                 (rev recent_tasks)\<rparr>)"

definition update_button_states :: "gui \<Rightarrow> gui" where
  "update_button_states s =
     (if is_task_running s then s\<lparr>start_button := ''disabled'', stop_button := ''normal''\<rparr>
      else s\<lparr>start_button := ''normal'', stop_button := ''disabled''\<rparr>)"

definition add_placeholder :: "gui \<Rightarrow> gui" where
  "add_placeholder s =
     (if command_entry s = [] then s\<lparr>command_entry := ''Message Luma''\<rparr> else s)"

section \<open>Starting and stopping a task\<close>

text \<open>
  \<^verbatim>\<open>send_command\<close>. Making and starting the worker thread is recorded in \<open>task_thread\<close>
  and \<open>threads_started\<close>; what the worker then does is \<open>run_agent_task_async\<close> below.
\<close>

definition send_command :: "env \<Rightarrow> gui \<Rightarrow> gui" where
  "send_command E s =
     (let command = strip (command_entry s) in
      if command = [] \<or> command = ''Message Luma'' then s
      else if current_api_key s = [] then
        show_settings
          (add_message E ''System''
             ''Error: Please set your Google API key in Settings before starting a task.''
             ''error'' s)
      else
        (let s1 = add_placeholder (s\<lparr>command_entry := []\<rparr>);
             s2 = add_message E ''User'' command ''user'' s1
         in if \<not> DEPENDENCIES_AVAILABLE E then
              add_message E ''System''
                ''Please install required dependencies: langchain-google-genai, windows-use''
                ''error'' s2
            else
              (let s3 = update_task_history_display
                          (s2\<lparr>task_history := task_history s2 @ [command]\<rparr>)
               in if \<not> is_task_running s3 then
                    s3\<lparr>task_thread := Some command,
                       threads_started := threads_started s3 @ [command]\<rparr>
                  else s3)))"

text \<open>
  \<^verbatim>\<open>initialize_agent\<close>: it catches what the constructors raise and reports it in the
  chat, so nothing escapes it.
\<close>

definition initialize_agent :: "env \<Rightarrow> gui \<Rightarrow> gui" where
  "initialize_agent E s =
     (if \<not> DEPENDENCIES_AVAILABLE E then
        add_message E ''System''
          ''Agent dependencies not available. Please install required packages.'' ''error'' s
      else (case agent_init_error E of
              None \<Rightarrow> add_message E ''System'' ''Agent initialized successfully.'' ''system''
                        (s\<lparr>agent := True\<rparr>)
            | Some e \<Rightarrow> add_message E ''System'' (''Failed to initialize agent: '' @ e)
                          ''error'' s))"

definition start_task :: "env \<Rightarrow> gui \<Rightarrow> gui" where
  "start_task E s =
     (if strip (command_entry s) = [] \<or> command_entry s = ''Message Luma'' then
        s\<lparr>dialogs := dialogs s @ [(''showwarning'', ''Warning'', ''Please enter a command first.'')]\<rparr>
      else if current_api_key s = [] then
        show_settings
          (add_message E ''System''
             ([CHR 0xE2, CHR 0x9A, CHR 0xA0, CHR 0xEF, CHR 0xB8, CHR 0x8F]
              @ '' API key is required to run tasks. Please enter your API key.'')
             ''error'' s)
      else
        (let s1 = (if \<not> agent s \<and> DEPENDENCIES_AVAILABLE E then initialize_agent E s else s)
         in if \<not> agent s1 then
              add_message E ''System''
                ([CHR 0xE2, CHR 0x9D, CHR 0x8C]
                 @ '' Agent initialization failed. Please check your API key and try again.'')
                ''error'' s1
            else send_command E s1))"

text \<open>
  \<^verbatim>\<open>stop_task\<close>. \<^verbatim>\<open>current_task.cancel()\<close> marks the task; nothing here waits for the
  worker thread.
\<close>

definition stop_task :: "env \<Rightarrow> gui \<Rightarrow> gui" where
  "stop_task E s =
     (if is_task_running s \<and> task_thread s \<noteq> None then
        (let s1 = add_message E ''System''
                    ([CHR 0xF0, CHR 0x9F, CHR 0x9B, CHR 0x91] @ '' Stopping task... Please wait...'')
                    ''system'' s;
             s2 = (case current_task s1 of
                     Some t \<Rightarrow>
                       if \<not> is_done t
                       then s1\<lparr>current_task := Some (t\<lparr>cancel_requested := True\<rparr>)\<rparr>
                       else s1
                   | None \<Rightarrow> s1)
         in update_button_states (s2\<lparr>is_task_running := False\<rparr>))
      else s)"

section \<open>The worker: capturing the adapter's output and running the task\<close>

text \<open>
  What one call of \<^verbatim>\<open>self.agent.invoke(query)\<close> does, seen from this program: the texts
  it writes to \<^verbatim>\<open>sys.stdout\<close> and \<^verbatim>\<open>sys.stderr\<close>, in order, and then either the text
  of the exception it raises or the \<^verbatim>\<open>content\<close> of its result (\<open>None\<close> when the result
  has no content or an empty one).
\<close>

type_synonym adapter_run = "(stream \<times> string) list \<times> (string + string option)"

text \<open>The parts of \<^verbatim>\<open>capture_agent_output\<close>: the two tees replace the streams of the process,\<close>

definition begin_capture :: "gui \<Rightarrow> gui" where
  "begin_capture s =
     s\<lparr>sys_stdout := Some \<lparr>sender = ''Agent'', buffer = []\<rparr>,
       sys_stderr := Some \<lparr>sender = ''Agent'', buffer = []\<rparr>,
       captured_output := []\<rparr>"

text \<open>the adapter writes,\<close>

fun adapter_writes :: "(stream \<times> string) list \<Rightarrow> gui \<Rightarrow> gui" where
  "adapter_writes [] s = s"
| "adapter_writes ((st, text) # rest) s = adapter_writes rest (write_stream st text s)"

text \<open>
  and at the end both streams are flushed, unless the adapter raised, and the terminal
  streams are put back in every case.
\<close>

definition restore_streams :: "gui \<Rightarrow> gui" where
  "restore_streams s = s\<lparr>sys_stdout := None, sys_stderr := None\<rparr>"

definition end_capture :: "string + string option \<Rightarrow> gui \<Rightarrow> gui" where
  "end_capture res s =
     restore_streams
       (case res of Inl e \<Rightarrow> s | Inr r \<Rightarrow> flush_stream Stderr (flush_stream Stdout s))"

text \<open>
  What the call on \<^verbatim>\<open>self.agent\<close> does: without an agent object it raises an attribute
  error and nothing is written; else it is the adapter's run.
\<close>

definition agent_invoke :: "(string \<Rightarrow> adapter_run) \<Rightarrow> string \<Rightarrow> gui \<Rightarrow> adapter_run" where
  "agent_invoke invoke query s =
     (if \<not> agent s then
        ([], Inl ([CHR 0x27] @ ''NoneType'' @ [CHR 0x27] @ '' object has no attribute ''
                  @ [CHR 0x27] @ ''invoke'' @ [CHR 0x27]))
      else invoke query)"

definition note_call :: "string \<Rightarrow> gui \<Rightarrow> gui" where
  "note_call query s = (if agent s then s\<lparr>adapter_calls := adapter_calls s @ [query]\<rparr> else s)"

text \<open>\<^verbatim>\<open>capture_agent_output\<close> from its first to its last statement.\<close>

definition capture_agent_output :: "(string \<Rightarrow> adapter_run) \<Rightarrow> string \<Rightarrow> gui
    \<Rightarrow> (string + string option) \<times> gui" where
  "capture_agent_output invoke query s =
     (case agent_invoke invoke query s of
        (writes, res) \<Rightarrow>
          (res, end_capture res (adapter_writes writes (begin_capture (note_call query s)))))"

datatype outcome = Returned | CancelledError

definition put :: "msg \<Rightarrow> gui \<Rightarrow> gui" where
  "put m s = s\<lparr>message_queue := message_queue s @ [m]\<rparr>"

text \<open>The \<^verbatim>\<open>finally\<close> clause of \<^verbatim>\<open>execute_agent_task_async\<close>.\<close>

definition finally_idle :: "gui \<Rightarrow> gui" where
  "finally_idle s = put (''update_buttons'', [], []) (s\<lparr>is_task_running := False\<rparr>)"

text \<open>The rule block: the notice on the queue and the query for the adapter.\<close>

definition apply_rules :: "string \<Rightarrow> gui \<Rightarrow> string \<times> gui" where
  "apply_rules query s =
     (if settings_rules s \<noteq> [] \<and> valid_rules (settings_rules s) \<noteq> [] then
        (enhanced_query (settings_rules s) query,
         put (''Agent'', [CHR 0xF0, CHR 0x9F, CHR 0x93, CHR 0x8B] @ '' Applying ''
                @ str_nat (length (valid_rules (settings_rules s)))
                @ '' rules to guide task execution...'', ''agent'') s)
      else (enhanced_query (settings_rules s) query, s))"

text \<open>
  The statements of \<^verbatim>\<open>execute_agent_task_async\<close>, in their order. First the state is set
  to running and the task is announced on the queue.
\<close>

definition announce_task :: "string \<Rightarrow> gui \<Rightarrow> gui" where
  "announce_task query s =
     put (''Agent'', [CHR 0xF0, CHR 0x9F, CHR 0x93, CHR 0x8B] @ '' Objective: '' @ query, ''agent'')
       (put (''Agent'', [CHR 0xF0, CHR 0x9F, CHR 0xA4, CHR 0x96] @ '' Initializing task...'',
             ''agent'')
         (put (''update_buttons'', [], []) (s\<lparr>is_task_running := True\<rparr>)))"

text \<open>The two notices between the first check and the second.\<close>

definition announce_call :: "gui \<Rightarrow> gui" where
  "announce_call s =
     put (''Agent'', [CHR 0xE2, CHR 0x9A, CHR 0xA1] @ '' Executing agent task...'', ''agent'')
       (put (''Agent'', [CHR 0xF0, CHR 0x9F, CHR 0x94, CHR 0x8D]
               @ '' Analyzing request and planning actions...'', ''agent'') s)"

text \<open>Reporting the result: the completion notice and, for a result with content, the content.\<close>

definition report_result :: "string option \<Rightarrow> gui \<Rightarrow> gui" where
  "report_result content s =
     (let s' = put (''Agent'', [CHR 0xE2, CHR 0x9C, CHR 0x85] @ '' Task completed successfully!'',
                    ''agent'') s
      in case content of
           Some text \<Rightarrow>
             put (''Agent'', [CHR 0xF0, CHR 0x9F, CHR 0x93, CHR 0x84] @ '' Final Result: '' @ text,
                  ''agent'') s'
         | None \<Rightarrow> s')"

text \<open>The handler \<^verbatim>\<open>except Exception as e\<close>.\<close>

definition report_error :: "string \<Rightarrow> gui \<Rightarrow> gui" where
  "report_error e s =
     put (''System'', [CHR 0xE2, CHR 0x9D, CHR 0x8C] @ '' Error executing task: '' @ e, ''error'') s"

text \<open>
  The test \<^verbatim>\<open>asyncio.current_task().cancelled()\<close> of the three checks reads the state of
  the task that runs the coroutine, the one \<^verbatim>\<open>run_agent_task_async\<close> has put in
  \<^verbatim>\<open>current_task\<close>. A request to cancel that is pending on that task is what the
  \<^verbatim>\<open>await\<close> delivers as a cancellation.
\<close>

definition cancelled_reading :: "gui \<Rightarrow> bool" where
  "cancelled_reading s = (case current_task s of Some t \<Rightarrow> is_cancelled t | None \<Rightarrow> False)"

definition cancel_pending :: "gui \<Rightarrow> bool" where
  "cancel_pending s = (case current_task s of Some t \<Rightarrow> cancel_requested t | None \<Rightarrow> False)"

text \<open>
  The places where the coroutine can stand while the interface thread runs a callback:
  before its first statement, at each of the three checks (lines 982, 995 and 1002), and
  in the \<^verbatim>\<open>await\<close> of the adapter call, with the writes the adapter has still to make
  and what it will return or raise.
\<close>

datatype pc =
    AtStart string
  | AtFirstCheck string
  | AtSecondCheck string
  | Calling "(stream \<times> string) list" "string + string option"
  | AtLastCheck "string option"
  | Ended outcome

text \<open>
  One step of the coroutine, from one such place to the next. The first check stands
  before the \<^verbatim>\<open>try\<close>, so a cancellation seen there leaves without the \<^verbatim>\<open>finally\<close>
  clause; the other two checks and the \<^verbatim>\<open>await\<close> stand inside it. When the adapter has
  made its last write the capture ends and the \<^verbatim>\<open>await\<close> returns: with a cancellation
  when a request is pending, else with what the adapter raised or returned.
\<close>

fun coroutine_step :: "(string \<Rightarrow> adapter_run) \<Rightarrow> pc \<times> gui \<Rightarrow> pc \<times> gui" where
  "coroutine_step invoke (AtStart query, s) =
     (case apply_rules query (announce_task query s) of
        (enhanced, s') \<Rightarrow> (AtFirstCheck enhanced, s'))"
| "coroutine_step invoke (AtFirstCheck enhanced, s) =
     (if cancelled_reading s then (Ended CancelledError, s)
      else (AtSecondCheck enhanced, announce_call s))"
| "coroutine_step invoke (AtSecondCheck enhanced, s) =
     (if cancelled_reading s then (Ended CancelledError, finally_idle s)
      else (case agent_invoke invoke enhanced s of
              (writes, res) \<Rightarrow> (Calling writes res, begin_capture (note_call enhanced s))))"
| "coroutine_step invoke (Calling ((st, text) # rest) res, s) =
     (Calling rest res, write_stream st text s)"
| "coroutine_step invoke (Calling [] res, s) =
     (let s' = end_capture res s in
      if cancel_pending s' then (Ended CancelledError, finally_idle s')
      else (case res of
              Inl e \<Rightarrow> (Ended Returned, finally_idle (report_error e s'))
            | Inr content \<Rightarrow> (AtLastCheck content, s')))"
| "coroutine_step invoke (AtLastCheck content, s) =
     (if cancelled_reading s then (Ended CancelledError, finally_idle s)
      else (Ended Returned, finally_idle (report_result content s)))"
| "coroutine_step invoke (Ended out, s) = (Ended out, s)"

text \<open>How far a place is from the end: its rank, and the writes still to make.\<close>

fun rank :: "pc \<Rightarrow> nat" where
  "rank (AtStart query) = 5"
| "rank (AtFirstCheck enhanced) = 4"
| "rank (AtSecondCheck enhanced) = 3"
| "rank (Calling writes res) = 2"
| "rank (AtLastCheck content) = 1"
| "rank (Ended out) = 0"

fun writes_left :: "pc \<Rightarrow> nat" where
  "writes_left (Calling writes res) = Suc (length writes)"
| "writes_left p = 0"

text \<open>The coroutine run to its end with no callback of the interface in between.\<close>

function run_coroutine :: "(string \<Rightarrow> adapter_run) \<Rightarrow> pc \<times> gui \<Rightarrow> outcome \<times> gui" where
  "run_coroutine invoke (p, s) =
     (case p of
        Ended out \<Rightarrow> (out, s)
      | _ \<Rightarrow> run_coroutine invoke (coroutine_step invoke (p, s)))"
  by pat_completeness auto
termination
proof (relation "measures [\<lambda>(invoke, p, s). rank p, \<lambda>(invoke, p, s). writes_left p]")
  show "wf (measures [\<lambda>(invoke, p, s). rank p, \<lambda>(invoke, p, s). writes_left p])" by simp
next
  fix invoke :: "string \<Rightarrow> adapter_run" and p :: pc and s :: gui and query :: string
  assume "p = AtStart query"
  then show "((invoke, coroutine_step invoke (p, s)), (invoke, p, s))
      \<in> measures [\<lambda>(invoke, p, s). rank p, \<lambda>(invoke, p, s). writes_left p]"
    by (simp add: split_beta)
next
  fix invoke :: "string \<Rightarrow> adapter_run" and p :: pc and s :: gui and enhanced :: string
  assume "p = AtFirstCheck enhanced"
  then show "((invoke, coroutine_step invoke (p, s)), (invoke, p, s))
      \<in> measures [\<lambda>(invoke, p, s). rank p, \<lambda>(invoke, p, s). writes_left p]"
    by simp
next
  fix invoke :: "string \<Rightarrow> adapter_run" and p :: pc and s :: gui and enhanced :: string
  assume "p = AtSecondCheck enhanced"
  then show "((invoke, coroutine_step invoke (p, s)), (invoke, p, s))
      \<in> measures [\<lambda>(invoke, p, s). rank p, \<lambda>(invoke, p, s). writes_left p]"
    by (simp add: split_beta)
next
  fix invoke :: "string \<Rightarrow> adapter_run" and p :: pc and s :: gui
    and writes :: "(stream \<times> string) list" and res :: "string + string option"
  assume "p = Calling writes res"
  then show "((invoke, coroutine_step invoke (p, s)), (invoke, p, s))
      \<in> measures [\<lambda>(invoke, p, s). rank p, \<lambda>(invoke, p, s). writes_left p]"
    by (cases writes) (auto simp: Let_def split: sum.splits)
next
  fix invoke :: "string \<Rightarrow> adapter_run" and p :: pc and s :: gui and content :: "string option"
  assume "p = AtLastCheck content"
  then show "((invoke, coroutine_step invoke (p, s)), (invoke, p, s))
      \<in> measures [\<lambda>(invoke, p, s). rank p, \<lambda>(invoke, p, s). writes_left p]"
    by simp
qed

declare run_coroutine.simps [simp del]

text \<open>\<^verbatim>\<open>execute_agent_task_async\<close>: the coroutine from its first statement.\<close>

definition execute_agent_task_async ::
    "(string \<Rightarrow> adapter_run) \<Rightarrow> string \<Rightarrow> gui \<Rightarrow> outcome \<times> gui" where
  "execute_agent_task_async invoke query s = run_coroutine invoke (AtStart query, s)"

text \<open>
  \<^verbatim>\<open>run_agent_task_async\<close>, the body of the worker thread: it registers the asyncio task,
  runs the coroutine, reports a cancellation, clears the registration and, when the state
  is not running by then, adds the closing notice. A task whose coroutine returns while a
  request to cancel is pending ends cancelled as well. The handler for other exceptions has
  nothing to catch, since the coroutine reports those itself.
\<close>

definition run_agent_task_async :: "(string \<Rightarrow> adapter_run) \<Rightarrow> string \<Rightarrow> gui \<Rightarrow> gui" where
  "run_agent_task_async invoke query s =
     (case execute_agent_task_async invoke query
             (s\<lparr>current_task :=
                  Some \<lparr>is_done = False, is_cancelled = False, cancel_requested = False\<rparr>\<rparr>) of
        (out, s1) \<Rightarrow>
          (let s2 = (if out = CancelledError \<or> cancel_pending s1
                     then put (''System'', ''Task was cancelled by user.'', ''system'') s1
                     else s1);
               s3 = s2\<lparr>current_task := None\<rparr>
           in if \<not> is_task_running s3 then
                put (''System'', [CHR 0xE2, CHR 0x9C, CHR 0x8B] @ '' Task stopped successfully.'',
                     ''system'') s3
              else s3))"

section \<open>The claims in the words of the specification\<close>

text \<open>
  What \<^verbatim>\<open>load_rules\<close> is said to return: the stripped, non-empty strings of the array
  in the rules file when that file holds an array of strings, and nothing otherwise.
\<close>

fun is_JStr :: "json \<Rightarrow> bool" where
  "is_JStr (JStr r) = True"
| "is_JStr v = False"

fun the_str :: "json \<Rightarrow> string" where
  "the_str (JStr r) = r"
| "the_str v = []"

definition spec_load_rules :: "file_state \<Rightarrow> string list" where
  "spec_load_rules f =
     (case f of
        Json (JArr xs) \<Rightarrow>
          if list_all is_JStr xs then filter (\<lambda>r. r \<noteq> []) (map (\<lambda>v. strip (the_str v)) xs)
          else []
      | _ \<Rightarrow> [])"

text \<open>
  What saving the rule fields is said to store: the stripped entries that are not empty,
  each kept at its first occurrence (\<^const>\<open>remdups\<close> keeps the last one, hence the
  reversals).
\<close>

definition spec_saved_rules :: "string list \<Rightarrow> string list" where
  "spec_saved_rules entries = rev (remdups (rev (filter (\<lambda>r. r \<noteq> []) (map strip entries))))"

section \<open>A state and an environment to run the model on\<close>

definition sample_gui :: gui where
  "sample_gui =
     \<lparr>agent = True, current_api_key = ''key'', is_task_running = False, current_task = None,
      task_thread = None, threads_started = [], adapter_calls = [], message_queue = [],
      chat_history = [], task_history = [], settings_rules = [], settings_theme = ''dark'',
      command_entry = ''open notepad'', rule_entries = [ [], [], [], [], [] ],
      chat_display = [], task_labels = [], start_button = ''normal'',
      stop_button = ''disabled'', settings_window = False, dialogs = [],
      original_stdout = [], original_stderr = [], sys_stdout = None, sys_stderr = None,
      captured_output = [], files = (\<lambda>name. Absent)\<rparr>"

definition sample_env :: env where
  "sample_env =
     \<lparr>clock = ''12:00:00'', faults = (\<lambda>name. None), DEPENDENCIES_AVAILABLE = True,
      agent_init_error = None\<rparr>"

text \<open>The text of the exception a write fault raises.\<close>

fun fault_text :: "fault \<Rightarrow> string" where
  "fault_text (OpenFails e) = e"
| "fault_text (DumpFails e left) = e"

text \<open>An environment in which no file can be opened for writing.\<close>

definition failing_env :: env where
  "failing_env = sample_env\<lparr>faults := (\<lambda>name. Some (OpenFails ''Permission denied''))\<rparr>"

text \<open>A state in which the worker of a first task is running its coroutine.\<close>

definition running_gui :: gui where
  "running_gui =
     sample_gui\<lparr>is_task_running := True, task_thread := Some ''first task'',
                current_task :=
                  Some \<lparr>is_done = False, is_cancelled = False, cancel_requested = False\<rparr>,
                threads_started := [''first task''], task_history := [''first task''],
                start_button := ''disabled'', stop_button := ''normal''\<rparr>"

section \<open>The log lines and the rule block in the words of the specification\<close>

text \<open>\<^verbatim>\<open>text.split('\n')\<close>: the lines of a text, the last one being what follows the last line feed.\<close>

fun split_nl :: "string \<Rightarrow> string list" where
  "split_nl [] = [ [] ]"
| "split_nl (c # cs) =
     (if c = CHR 0x0A then [] # split_nl cs
      else (case split_nl cs of l # ls \<Rightarrow> (c # l) # ls | [] \<Rightarrow> [ [c] ]))"




text \<open>The numbered block: one line \<^verbatim>\<open>i. rule\<close> for each rule, counted from one.\<close>

definition rules_block :: "string list \<Rightarrow> string" where
  "rules_block rules =
     concat (map (\<lambda>(i, rule). str_nat i @ ''. '' @ rule @ [CHR 0x0A]) (enumerate 1 rules))"

section \<open>Adapter runs and cancellation readings to run the model on\<close>

text \<open>
  A run that writes to both streams, with a line split over two writes, a blank line and a
  last line without line feed.
\<close>

definition sample_invoke :: "string \<Rightarrow> adapter_run" where
  "sample_invoke query =
     ([(Stdout, ''Thought: open the menu'' @ [CHR 0x0A] @ ''Act''),
       (Stderr, ''warning: slow start'' @ [CHR 0x0A]),
       (Stdout, ''ion: click'' @ [CHR 0x0A] @ ''  '' @ [CHR 0x0A] @ ''done'')],
      Inr (Some ''ok''))"


text \<open>
  The coroutine run together with the interface thread: before each step of the coroutine
  the list tells whether the user presses Stop, that is, whether \<^verbatim>\<open>stop_task\<close> runs.
\<close>

fun run_with_stops ::
    "env \<Rightarrow> (string \<Rightarrow> adapter_run) \<Rightarrow> bool list \<Rightarrow> pc \<times> gui \<Rightarrow> pc \<times> gui" where
  "run_with_stops E invoke [] ps = ps"
| "run_with_stops E invoke (stop # rest) (p, s) =
     run_with_stops E invoke rest (coroutine_step invoke (p, if stop then stop_task E s else s))"

text \<open>
  The state in which the worker thread of a first command starts: the command has been
  sent and the asyncio task of the coroutine is registered.
\<close>

definition worker_gui :: gui where
  "worker_gui =
     (send_command sample_env sample_gui)
       \<lparr>current_task := Some \<lparr>is_done = False, is_cancelled = False, cancel_requested = False\<rparr>\<rparr>"

section \<open>Stripping\<close>

lemma strip_idem: "strip (strip s) = strip s"
  unfolding strip_def
  by (metis (no_types, lifting) ext Nil_is_rev_conv dropWhile_eq_self_iff
    hd_dropWhile hd_rev last_appendR rev_swap
    takeWhile_dropWhile_id)

section \<open>Loading the rules\<close>

lemma strip_rules_strings:
  "list_all is_JStr xs \<Longrightarrow>
   strip_rules xs = Inr (filter (\<lambda>r. r \<noteq> []) (map (\<lambda>v. strip (the_str v)) xs))"
  by (induction xs rule: strip_rules.induct) simp_all

lemma strip_rules_other: "\<not> list_all is_JStr xs \<Longrightarrow> \<exists>e. strip_rules xs = Inl e"
  by (induction xs rule: strip_rules.induct) (auto split: sum.splits)

lemma load_rules_try_spec:
  "(case load_rules_try f of Inr rules \<Rightarrow> rules | Inl e \<Rightarrow> []) = spec_load_rules f"
proof (cases f)
  case (Json v)
  show ?thesis
  proof (cases v)
    case (JArr xs)
    show ?thesis
    proof (cases "list_all is_JStr xs")
      case True
      with Json JArr show ?thesis by (simp add: spec_load_rules_def strip_rules_strings)
    next
      case False
      then obtain e where "strip_rules xs = Inl e" using strip_rules_other by blast
      with False Json JArr show ?thesis by (simp add: spec_load_rules_def)
    qed
  qed (simp_all add: Json spec_load_rules_def)
qed (simp_all add: spec_load_rules_def)

lemma fst_load_rules:
  "fst (load_rules s) =
   (case load_rules_try (files s ''rules.json'') of Inr rules \<Rightarrow> rules | Inl e \<Rightarrow> [])"
  by (simp add: load_rules_def split: sum.splits)

lemma spec_load_rules_stripped:
  "list_all (\<lambda>r. r \<noteq> [] \<and> strip r = r) (spec_load_rules f)"
  by (auto simp: spec_load_rules_def list_all_iff strip_idem split: file_state.splits json.splits)

text \<open>
  Claim C10. \<^verbatim>\<open>load_rules\<close> always returns a list, never an exception: for a rules file
  that is missing, unreadable, not JSON, not an array, or an array with an element that is
  no string, the list is empty; for an array of strings it is their stripped texts without
  the empty ones, in order. Every returned rule is non-empty and stripped.
\<close>

theorem load_rules_total_stripped:
  "fst (load_rules s) = spec_load_rules (files s ''rules.json'')
   \<and> list_all (\<lambda>r. r \<noteq> [] \<and> strip r = r) (fst (load_rules s))"
  by (simp add: fst_load_rules load_rules_try_spec spec_load_rules_stripped)

theorem load_rules_total_stripped_witness:
  "fst (load_rules (sample_gui\<lparr>files := (\<lambda>name. Json (JArr [JStr '' a '', JStr ''  '', JStr ''b'']))\<rparr>))
     = [''a'', ''b'']
   \<and> fst (load_rules (sample_gui\<lparr>files := (\<lambda>name. Json (JArr [JStr ''a'', JNum 3]))\<rparr>)) = []
   \<and> fst (load_rules (sample_gui\<lparr>files := (\<lambda>name. Malformed ''Expecting value'')\<rparr>)) = []
   \<and> fst (load_rules sample_gui) = []"
  using load_rules_total_stripped
          [of "sample_gui\<lparr>files := (\<lambda>name. Json (JArr [JStr '' a '', JStr ''  '', JStr ''b'']))\<rparr>"]
        load_rules_total_stripped
          [of "sample_gui\<lparr>files := (\<lambda>name. Json (JArr [JStr ''a'', JNum 3]))\<rparr>"]
        load_rules_total_stripped
          [of "sample_gui\<lparr>files := (\<lambda>name. Malformed ''Expecting value'')\<rparr>"]
        load_rules_total_stripped [of sample_gui]
  by (simp add: spec_load_rules_def sample_gui_def strip_def isspace_def)

section \<open>Saving the rules\<close>

lemma remdups_drop_earlier: "r \<in> set ys \<Longrightarrow> remdups (xs @ r # ys) = remdups (xs @ ys)"
  by (induction xs) auto

lemma collect_rules_acc:
  "distinct acc \<Longrightarrow>
   collect_rules es acc = rev (remdups (rev (acc @ filter (\<lambda>r. r \<noteq> []) (map strip es))))"
proof (induction es arbitrary: acc)
  case Nil
  then show ?case by (simp add: distinct_remdups_id)
next
  case (Cons e es)
  show ?case
  proof (cases "strip e \<noteq> [] \<and> strip e \<notin> set acc")
    case True
    with Cons.prems have "distinct (acc @ [strip e])" by simp
    from Cons.IH[OF this] True show ?thesis by simp
  next
    case False
    then consider "strip e = []" | "strip e \<noteq> []" "strip e \<in> set acc" by blast
    then show ?thesis
    proof cases
      case 1
      with Cons.IH[OF Cons.prems] show ?thesis by simp
    next
      case 2
      with Cons.IH[OF Cons.prems] show ?thesis
        by (simp add: remdups_drop_earlier)
    qed
  qed
qed

lemma collect_rules_spec: "collect_rules es [] = spec_saved_rules es"
  using collect_rules_acc[of "[]" es] by (simp add: spec_saved_rules_def)

section \<open>What writing to a stream, the chat and the settings dialog leave alone\<close>

lemma write_stream_keeps [simp]:
  "agent (write_stream st text s) = agent s"
  "current_api_key (write_stream st text s) = current_api_key s"
  "is_task_running (write_stream st text s) = is_task_running s"
  "current_task (write_stream st text s) = current_task s"
  "task_thread (write_stream st text s) = task_thread s"
  "threads_started (write_stream st text s) = threads_started s"
  "adapter_calls (write_stream st text s) = adapter_calls s"
  "chat_history (write_stream st text s) = chat_history s"
  "task_history (write_stream st text s) = task_history s"
  "settings_rules (write_stream st text s) = settings_rules s"
  "settings_theme (write_stream st text s) = settings_theme s"
  "command_entry (write_stream st text s) = command_entry s"
  "rule_entries (write_stream st text s) = rule_entries s"
  "chat_display (write_stream st text s) = chat_display s"
  "task_labels (write_stream st text s) = task_labels s"
  "start_button (write_stream st text s) = start_button s"
  "stop_button (write_stream st text s) = stop_button s"
  "settings_window (write_stream st text s) = settings_window s"
  "dialogs (write_stream st text s) = dialogs s"
  "files (write_stream st text s) = files s"
  by (simp_all add: write_stream_def tee_write_def to_terminal_def set_sys_stream_def
        sys_stream_def split: stream.splits option.splits prod.splits)

lemma write_stream_terminal:
  "sys_stream st s = None \<Longrightarrow> write_stream st text s = to_terminal st text s"
  by (simp add: write_stream_def)

lemma print_keeps [simp]:
  "agent (print text s) = agent s"
  "current_api_key (print text s) = current_api_key s"
  "is_task_running (print text s) = is_task_running s"
  "current_task (print text s) = current_task s"
  "task_thread (print text s) = task_thread s"
  "threads_started (print text s) = threads_started s"
  "adapter_calls (print text s) = adapter_calls s"
  "chat_history (print text s) = chat_history s"
  "task_history (print text s) = task_history s"
  "settings_rules (print text s) = settings_rules s"
  "settings_theme (print text s) = settings_theme s"
  "command_entry (print text s) = command_entry s"
  "rule_entries (print text s) = rule_entries s"
  "chat_display (print text s) = chat_display s"
  "task_labels (print text s) = task_labels s"
  "start_button (print text s) = start_button s"
  "stop_button (print text s) = stop_button s"
  "settings_window (print text s) = settings_window s"
  "dialogs (print text s) = dialogs s"
  "files (print text s) = files s"
  "original_stderr (print text s) = original_stderr s"
  "sys_stderr (print text s) = sys_stderr s"
  by (simp_all add: print_def write_stream_def tee_write_def to_terminal_def set_sys_stream_def
        sys_stream_def split: option.splits prod.splits)

lemma print_terminal:
  "sys_stdout s = None \<Longrightarrow>
   print text s = s\<lparr>original_stdout := original_stdout s @ text @ [CHR 0x0A]\<rparr>"
  by (simp add: print_def write_stream_def sys_stream_def to_terminal_def)

lemma save_chat_history_keeps [simp]:
  "agent (save_chat_history E s) = agent s"
  "current_api_key (save_chat_history E s) = current_api_key s"
  "is_task_running (save_chat_history E s) = is_task_running s"
  "current_task (save_chat_history E s) = current_task s"
  "task_thread (save_chat_history E s) = task_thread s"
  "threads_started (save_chat_history E s) = threads_started s"
  "adapter_calls (save_chat_history E s) = adapter_calls s"
  "chat_history (save_chat_history E s) = chat_history s"
  "task_history (save_chat_history E s) = task_history s"
  "settings_rules (save_chat_history E s) = settings_rules s"
  "settings_theme (save_chat_history E s) = settings_theme s"
  "command_entry (save_chat_history E s) = command_entry s"
  "rule_entries (save_chat_history E s) = rule_entries s"
  "chat_display (save_chat_history E s) = chat_display s"
  "task_labels (save_chat_history E s) = task_labels s"
  "start_button (save_chat_history E s) = start_button s"
  "stop_button (save_chat_history E s) = stop_button s"
  "settings_window (save_chat_history E s) = settings_window s"
  "dialogs (save_chat_history E s) = dialogs s"
  "original_stderr (save_chat_history E s) = original_stderr s"
  "sys_stderr (save_chat_history E s) = sys_stderr s"
  by (simp_all add: save_chat_history_def open_and_dump_def
        split: option.splits fault.splits)

lemma save_chat_history_other_files:
  "name \<noteq> ''chat_history.json'' \<Longrightarrow> files (save_chat_history E s) name = files s name"
  by (simp add: save_chat_history_def open_and_dump_def split: option.splits fault.splits)

lemma save_chat_history_queue:
  "faults E ''chat_history.json'' = None \<or> sys_stdout s = None \<Longrightarrow>
   message_queue (save_chat_history E s) = message_queue s"
  by (auto simp: save_chat_history_def open_and_dump_def print_terminal
           split: option.splits fault.splits)

lemma add_message_keeps [simp]:
  "agent (add_message E who text kind s) = agent s"
  "current_api_key (add_message E who text kind s) = current_api_key s"
  "is_task_running (add_message E who text kind s) = is_task_running s"
  "current_task (add_message E who text kind s) = current_task s"
  "task_thread (add_message E who text kind s) = task_thread s"
  "threads_started (add_message E who text kind s) = threads_started s"
  "adapter_calls (add_message E who text kind s) = adapter_calls s"
  "task_history (add_message E who text kind s) = task_history s"
  "settings_rules (add_message E who text kind s) = settings_rules s"
  "settings_theme (add_message E who text kind s) = settings_theme s"
  "command_entry (add_message E who text kind s) = command_entry s"
  "rule_entries (add_message E who text kind s) = rule_entries s"
  "task_labels (add_message E who text kind s) = task_labels s"
  "start_button (add_message E who text kind s) = start_button s"
  "stop_button (add_message E who text kind s) = stop_button s"
  "settings_window (add_message E who text kind s) = settings_window s"
  "dialogs (add_message E who text kind s) = dialogs s"
  "original_stderr (add_message E who text kind s) = original_stderr s"
  "sys_stderr (add_message E who text kind s) = sys_stderr s"
  by (simp_all add: add_message_def)

lemma add_message_chat [simp]:
  "chat_history (add_message E who text kind s) =
     chat_history s @ [\<lparr>timestamp = clock E, msg_sender = who, message = text, msg_type = kind\<rparr>]"
  "chat_display (add_message E who text kind s) =
     chat_display s @ ''['' @ clock E @ ''] '' @ who @ '': '' @ text @ [CHR 0x0A, CHR 0x0A]"
  by (simp_all add: add_message_def)

lemma add_message_other_files:
  "name \<noteq> ''chat_history.json'' \<Longrightarrow> files (add_message E who text kind s) name = files s name"
  by (simp add: add_message_def save_chat_history_other_files)

lemma add_message_queue:
  "faults E ''chat_history.json'' = None \<or> sys_stdout s = None \<Longrightarrow>
   message_queue (add_message E who text kind s) = message_queue s"
  using save_chat_history_queue[of E
          "s\<lparr>chat_display := chat_display s @ ''['' @ clock E @ ''] '' @ who @ '': '' @ text
                               @ [CHR 0x0A, CHR 0x0A],
             chat_history := chat_history s @
               [\<lparr>timestamp = clock E, msg_sender = who, message = text, msg_type = kind\<rparr>]\<rparr>"]
  by (simp add: add_message_def)

lemma show_settings_keeps [simp]:
  "agent (show_settings s) = agent s"
  "current_api_key (show_settings s) = current_api_key s"
  "is_task_running (show_settings s) = is_task_running s"
  "current_task (show_settings s) = current_task s"
  "task_thread (show_settings s) = task_thread s"
  "threads_started (show_settings s) = threads_started s"
  "adapter_calls (show_settings s) = adapter_calls s"
  "chat_history (show_settings s) = chat_history s"
  "task_history (show_settings s) = task_history s"
  "settings_rules (show_settings s) = settings_rules s"
  "command_entry (show_settings s) = command_entry s"
  "chat_display (show_settings s) = chat_display s"
  "task_labels (show_settings s) = task_labels s"
  "start_button (show_settings s) = start_button s"
  "stop_button (show_settings s) = stop_button s"
  "dialogs (show_settings s) = dialogs s"
  "files (show_settings s) = files s"
  "settings_window (show_settings s) = True"
  by (simp_all add: show_settings_def load_rules_def split: sum.splits prod.splits)

section \<open>The claims on persistence, the sidebar and a second command\<close>

text \<open>
  Claim C9. When the rules file can be written, saving the rule fields stores, in the
  rules file and in \<^verbatim>\<open>settings["rules"]\<close> alike, the stripped entries that are not
  empty, without duplicates, each at the place of its first occurrence, in field order.
\<close>

theorem save_rules_stores_first_occurrences:
  "faults E ''rules.json'' = None \<Longrightarrow>
   files (save_rules_from_settings_ui E s) ''rules.json''
     = Json (JArr (map JStr (spec_saved_rules (rule_entries s))))
   \<and> settings_rules (save_rules_from_settings_ui E s) = spec_saved_rules (rule_entries s)"
  by (simp add: save_rules_from_settings_ui_def save_rules_to_file_def open_and_dump_def
        Let_def add_message_other_files collect_rules_spec)

text \<open>
  Claim C8. The sidebar holds one label for each of the last eight tasks (for all of them
  when there are no more than eight), the newest first; each label is bound to its task
  and shows it, cut to forty characters and an ellipsis when it is longer. The history
  itself is not shortened, and saving it writes the whole sequence.
\<close>

theorem sidebar_shows_last_eight:
  "map snd (task_labels (update_task_history_display s)) = take 8 (rev (task_history s))
   \<and> map fst (task_labels (update_task_history_display s))
       = map (\<lambda>task. if length task > 40 then take 40 task @ ''...'' else task)
             (take 8 (rev (task_history s)))
   \<and> task_history (update_task_history_display s) = task_history s
   \<and> (faults E ''task_history.json'' = None \<longrightarrow>
        files (save_task_history E s) ''task_history.json''
          = Json (JArr (map JStr (task_history s))))"
  by (simp add: update_task_history_display_def Let_def take_rev comp_def
        save_task_history_def open_and_dump_def)

text \<open>
  Claim C1 says that a command submitted while a task runs leaves the task history as it
  was. \<^verbatim>\<open>send_command\<close>, bound to the Return key of the command field, tests
  \<^verbatim>\<open>is_task_running\<close> only after it has appended the command: with a first task running
  and \<^verbatim>\<open>open notepad\<close> in the field, no second thread is started, yet the history grows.
\<close>

theorem send_command_while_running_appends:
  "is_task_running running_gui
   \<and> task_history running_gui = [''first task'']
   \<and> task_history (send_command sample_env running_gui) = [''first task'', ''open notepad'']
   \<and> threads_started (send_command sample_env running_gui) = [''first task'']"
  by (simp add: send_command_def Let_def running_gui_def sample_gui_def sample_env_def
        strip_def isspace_def add_placeholder_def update_task_history_display_def)

text \<open>
  Claim C3 says that no failed save reaches the user interface. A failed save of the rules
  does: \<^verbatim>\<open>_save_rules_to_file\<close> raises the error again and
  \<^verbatim>\<open>save_rules_from_settings_ui\<close> shows it in an error dialog.
\<close>

theorem rules_save_failure_reaches_dialog:
  "faults failing_env ''rules.json'' = Some (OpenFails ''Permission denied'')
   \<and> dialogs sample_gui = []
   \<and> dialogs (save_rules_from_settings_ui failing_env sample_gui)
     = [(''showerror'', ''Error'', ''Failed to save rules: Permission denied'')]"
  by (simp add: save_rules_from_settings_ui_def save_rules_to_file_def open_and_dump_def
        failing_env_def sample_env_def sample_gui_def Let_def)

text \<open>
  Claim C3, amended. While the streams of the process are the terminal (no adapter call
  has replaced them), a failed save of the chat history, of the task history or of the
  settings prints one line on the console and changes neither the dialogs, nor the chat
  display, nor the message queue; a failed save of the rules prints one line on the
  console and shows one error dialog, and \<^verbatim>\<open>settings["rules"]\<close>, the chat display and
  the message queue stay as they were.
\<close>

theorem failed_saves_console_only:
  "(sys_stdout s = None \<and> faults E ''chat_history.json'' = Some f \<longrightarrow>
      original_stdout (save_chat_history E s)
        = original_stdout s @ ''Error saving chat history: '' @ fault_text f @ [CHR 0x0A]
      \<and> dialogs (save_chat_history E s) = dialogs s
      \<and> chat_display (save_chat_history E s) = chat_display s
      \<and> message_queue (save_chat_history E s) = message_queue s)
   \<and> (sys_stdout s = None \<and> faults E ''task_history.json'' = Some f \<longrightarrow>
      original_stdout (save_task_history E s)
        = original_stdout s @ ''Error saving task history: '' @ fault_text f @ [CHR 0x0A]
      \<and> dialogs (save_task_history E s) = dialogs s
      \<and> chat_display (save_task_history E s) = chat_display s
      \<and> message_queue (save_task_history E s) = message_queue s)
   \<and> (sys_stdout s = None \<and> faults E ''agent_settings.json'' = Some f \<longrightarrow>
      original_stdout (save_settings_to_file E s)
        = original_stdout s @ ''Error saving settings: '' @ fault_text f @ [CHR 0x0A]
      \<and> dialogs (save_settings_to_file E s) = dialogs s
      \<and> chat_display (save_settings_to_file E s) = chat_display s
      \<and> message_queue (save_settings_to_file E s) = message_queue s)
   \<and> (sys_stdout s = None \<and> faults E ''rules.json'' = Some f \<longrightarrow>
      original_stdout (save_rules_from_settings_ui E s)
        = original_stdout s @ ''Error saving rules to rules.json: '' @ fault_text f @ [CHR 0x0A]
      \<and> dialogs (save_rules_from_settings_ui E s)
        = dialogs s @ [(''showerror'', ''Error'', ''Failed to save rules: '' @ fault_text f)]
      \<and> settings_rules (save_rules_from_settings_ui E s) = settings_rules s
      \<and> chat_display (save_rules_from_settings_ui E s) = chat_display s
      \<and> message_queue (save_rules_from_settings_ui E s) = message_queue s)"
  by (cases f)
     (simp_all add: save_chat_history_def save_task_history_def save_settings_to_file_def
        save_rules_from_settings_ui_def save_rules_to_file_def open_and_dump_def print_terminal
        Let_def)

theorem save_rules_stores_first_occurrences_witness:
  "files (save_rules_from_settings_ui sample_env
            (sample_gui\<lparr>rule_entries := ['' be brief '', '''', ''ask first'', ''be brief'', ''  '']\<rparr>))
         ''rules.json''
     = Json (JArr [JStr ''be brief'', JStr ''ask first''])
   \<and> settings_rules (save_rules_from_settings_ui sample_env
            (sample_gui\<lparr>rule_entries := ['' be brief '', '''', ''ask first'', ''be brief'', ''  '']\<rparr>))
     = [''be brief'', ''ask first'']"
  using save_rules_stores_first_occurrences
          [of sample_env
              "sample_gui\<lparr>rule_entries := ['' be brief '', '''', ''ask first'', ''be brief'', ''  '']\<rparr>"]
  by (simp add: sample_env_def spec_saved_rules_def strip_def isspace_def)

theorem sidebar_shows_last_eight_witness:
  "map snd (task_labels (update_task_history_display
       (sample_gui\<lparr>task_history := [''t1'', ''t2'', ''t3'', ''t4'', ''t5'', ''t6'', ''t7'', ''t8'', ''t9'', ''t10'']\<rparr>)))
     = [''t10'', ''t9'', ''t8'', ''t7'', ''t6'', ''t5'', ''t4'', ''t3'']
   \<and> files (save_task_history sample_env
       (sample_gui\<lparr>task_history := [''t1'', ''t2'', ''t3'', ''t4'', ''t5'', ''t6'', ''t7'', ''t8'', ''t9'', ''t10'']\<rparr>))
       ''task_history.json''
     = Json (JArr [JStr ''t1'', JStr ''t2'', JStr ''t3'', JStr ''t4'', JStr ''t5'', JStr ''t6'',
                   JStr ''t7'', JStr ''t8'', JStr ''t9'', JStr ''t10''])"
  using sidebar_shows_last_eight
          [of "sample_gui\<lparr>task_history := [''t1'', ''t2'', ''t3'', ''t4'', ''t5'', ''t6'', ''t7'', ''t8'', ''t9'', ''t10'']\<rparr>"
              sample_env]
  by (simp add: sample_env_def)

theorem failed_saves_console_only_witness:
  "original_stdout (save_chat_history failing_env sample_gui)
     = ''Error saving chat history: Permission denied'' @ [CHR 0x0A]
   \<and> dialogs (save_chat_history failing_env sample_gui) = []
   \<and> original_stdout (save_task_history failing_env sample_gui)
     = ''Error saving task history: Permission denied'' @ [CHR 0x0A]
   \<and> dialogs (save_task_history failing_env sample_gui) = []
   \<and> original_stdout (save_settings_to_file failing_env sample_gui)
     = ''Error saving settings: Permission denied'' @ [CHR 0x0A]
   \<and> dialogs (save_settings_to_file failing_env sample_gui) = []
   \<and> original_stdout (save_rules_from_settings_ui failing_env sample_gui)
     = ''Error saving rules to rules.json: Permission denied'' @ [CHR 0x0A]
   \<and> dialogs (save_rules_from_settings_ui failing_env sample_gui)
     = [(''showerror'', ''Error'', ''Failed to save rules: Permission denied'')]"
  using failed_saves_console_only [of sample_gui failing_env "OpenFails ''Permission denied''"]
  by (simp add: failing_env_def sample_env_def sample_gui_def)

section \<open>Stopping and starting\<close>

text \<open>
  Claim C6. When \<^verbatim>\<open>stop_task\<close> is called while a task runs (the flag
  \<^verbatim>\<open>is_task_running\<close> is set, the worker thread exists and its asyncio task is not
  done), the request to cancel is placed on the task, \<^verbatim>\<open>is_task_running\<close> is cleared
  and the buttons show the idle state in the same call, and the stopping notice is added
  to the chat. The call neither waits for the worker nor depends on how far it has come:
  the thread object and the list of adapter calls are as before, and so is the message
  queue unless the save of the chat history fails during an adapter call.
\<close>

theorem stop_task_flips_to_idle:
  assumes "is_task_running s" and "task_thread s = Some th"
    and "current_task s = Some t" and "\<not> is_done t"
  shows "current_task (stop_task E s) = Some (t\<lparr>cancel_requested := True\<rparr>)
    \<and> cancel_pending (stop_task E s)
    \<and> \<not> is_task_running (stop_task E s)
    \<and> start_button (stop_task E s) = ''normal''
    \<and> stop_button (stop_task E s) = ''disabled''
    \<and> chat_history (stop_task E s)
        = chat_history s @ [\<lparr>timestamp = clock E, msg_sender = ''System'',
                               message = [CHR 0xF0, CHR 0x9F, CHR 0x9B, CHR 0x91]
                                         @ '' Stopping task... Please wait...'',
                               msg_type = ''system''\<rparr>]
    \<and> task_thread (stop_task E s) = Some th
    \<and> threads_started (stop_task E s) = threads_started s
    \<and> adapter_calls (stop_task E s) = adapter_calls s
    \<and> (faults E ''chat_history.json'' = None \<or> sys_stdout s = None \<longrightarrow>
         message_queue (stop_task E s) = message_queue s)"
  using assms
  by (simp add: stop_task_def Let_def update_button_states_def cancel_pending_def
        add_message_queue)

theorem stop_task_flips_to_idle_witness:
  "current_task (stop_task sample_env running_gui)
     = Some \<lparr>is_done = False, is_cancelled = False, cancel_requested = True\<rparr>
   \<and> \<not> is_task_running (stop_task sample_env running_gui)
   \<and> start_button (stop_task sample_env running_gui) = ''normal''
   \<and> stop_button (stop_task sample_env running_gui) = ''disabled''
   \<and> map message (chat_history (stop_task sample_env running_gui))
       = [ [CHR 0xF0, CHR 0x9F, CHR 0x9B, CHR 0x91] @ '' Stopping task... Please wait...'']
   \<and> message_queue (stop_task sample_env running_gui) = []"
  using stop_task_flips_to_idle
          [of running_gui "''first task''"
              "\<lparr>is_done = False, is_cancelled = False, cancel_requested = False\<rparr>" sample_env]
  by (simp add: running_gui_def sample_gui_def sample_env_def)

lemma initialize_agent_keeps [simp]:
  "is_task_running (initialize_agent E s) = is_task_running s"
  "task_thread (initialize_agent E s) = task_thread s"
  "threads_started (initialize_agent E s) = threads_started s"
  "current_api_key (initialize_agent E s) = current_api_key s"
  "command_entry (initialize_agent E s) = command_entry s"
  by (simp_all add: initialize_agent_def split: option.splits)

lemma send_command_no_launch:
  "strip (command_entry s) = [] \<or> strip (command_entry s) = ''Message Luma''
     \<or> is_task_running s \<or> current_api_key s = [] \<Longrightarrow>
   threads_started (send_command E s) = threads_started s
   \<and> task_thread (send_command E s) = task_thread s"
  by (auto simp: send_command_def Let_def add_placeholder_def update_task_history_display_def)

lemma strip_placeholder: "strip ''Message Luma'' = ''Message Luma''"
  by (simp add: strip_def isspace_def)

text \<open>
  Claim C7, amended. No thread is started, by \<^verbatim>\<open>start_task\<close> or by
  \<^verbatim>\<open>send_command\<close>, when the command is empty or the placeholder, when a task is
  running or when no API key is set. When no API key is set and the command passes the
  command check, the settings window is opened and an error line is added to the chat.
\<close>

theorem start_rejects:
  "(strip (command_entry s) = [] \<or> command_entry s = ''Message Luma''
      \<or> is_task_running s \<or> current_api_key s = [] \<longrightarrow>
      threads_started (start_task E s) = threads_started s
      \<and> task_thread (start_task E s) = task_thread s
      \<and> threads_started (send_command E s) = threads_started s
      \<and> task_thread (send_command E s) = task_thread s)
   \<and> (strip (command_entry s) \<noteq> [] \<and> command_entry s \<noteq> ''Message Luma''
      \<and> current_api_key s = [] \<longrightarrow>
      settings_window (start_task E s)
      \<and> map msg_type (chat_history (start_task E s)) = map msg_type (chat_history s) @ [''error''])
   \<and> (strip (command_entry s) \<noteq> [] \<and> strip (command_entry s) \<noteq> ''Message Luma''
      \<and> current_api_key s = [] \<longrightarrow>
      settings_window (send_command E s)
      \<and> map msg_type (chat_history (send_command E s)) = map msg_type (chat_history s) @ [''error''])"
proof (intro conjI impI)
  assume r: "strip (command_entry s) = [] \<or> command_entry s = ''Message Luma''
      \<or> is_task_running s \<or> current_api_key s = []"
  then have r': "strip (command_entry s) = [] \<or> strip (command_entry s) = ''Message Luma''
      \<or> is_task_running s \<or> current_api_key s = []"
    using strip_placeholder by auto
  from r' show "threads_started (send_command E s) = threads_started s"
    and "task_thread (send_command E s) = task_thread s"
    using send_command_no_launch by blast+
  have i: "strip (command_entry (initialize_agent E s)) = []
      \<or> strip (command_entry (initialize_agent E s)) = ''Message Luma''
      \<or> is_task_running (initialize_agent E s) \<or> current_api_key (initialize_agent E s) = []"
    using r' by simp
  show "threads_started (start_task E s) = threads_started s"
    using r' send_command_no_launch[OF r', of E] send_command_no_launch[OF i, of E]
    by (auto simp: start_task_def Let_def)
  show "task_thread (start_task E s) = task_thread s"
    using r' send_command_no_launch[OF r', of E] send_command_no_launch[OF i, of E]
    by (auto simp: start_task_def Let_def)
qed (simp_all add: start_task_def send_command_def Let_def)

theorem start_rejects_witness:
  "threads_started (start_task sample_env running_gui) = [''first task'']
   \<and> threads_started (send_command sample_env running_gui) = [''first task'']
   \<and> settings_window (start_task sample_env (sample_gui\<lparr>current_api_key := []\<rparr>))
   \<and> threads_started (start_task sample_env (sample_gui\<lparr>current_api_key := []\<rparr>)) = []
   \<and> settings_window (send_command sample_env (sample_gui\<lparr>current_api_key := []\<rparr>))
   \<and> map msg_type (chat_history (send_command sample_env (sample_gui\<lparr>current_api_key := []\<rparr>)))
       = [''error'']"
  using start_rejects [of running_gui sample_env]
        start_rejects [of "sample_gui\<lparr>current_api_key := []\<rparr>" sample_env]
  by (simp add: running_gui_def sample_gui_def strip_def isspace_def)

text \<open>
  Claim C7 says that without an API key a configuration prompt is shown. With an empty
  command as well, \<^verbatim>\<open>start_task\<close> returns at its first check: it shows the warning to
  enter a command, and neither the settings window nor a chat line.
\<close>

theorem start_empty_command_no_prompt:
  "current_api_key (sample_gui\<lparr>command_entry := [], current_api_key := []\<rparr>) = []
   \<and> \<not> settings_window (start_task sample_env (sample_gui\<lparr>command_entry := [], current_api_key := []\<rparr>))
   \<and> dialogs (start_task sample_env (sample_gui\<lparr>command_entry := [], current_api_key := []\<rparr>))
       = [(''showwarning'', ''Warning'', ''Please enter a command first.'')]
   \<and> chat_history (start_task sample_env (sample_gui\<lparr>command_entry := [], current_api_key := []\<rparr>)) = []"
  by (simp add: start_task_def sample_gui_def strip_def)

section \<open>The teed log sink\<close>

lemma split_nl_nonempty [simp]: "split_nl s \<noteq> []"
  by (induction s) (auto split: list.splits)




























section \<open>The coroutine\<close>

lemma run_coroutine_Ended [simp]: "run_coroutine invoke (Ended out, s) = (out, s)"
  by (subst run_coroutine.simps) simp

lemma run_coroutine_unfold:
  "run_coroutine invoke (p, s) = run_coroutine invoke (coroutine_step invoke (p, s))"
  by (cases p) (subst run_coroutine.simps, simp)+

lemma run_coroutine_calling:
  "run_coroutine invoke (Calling writes res, s)
   = run_coroutine invoke (Calling [] res, adapter_writes writes s)"
proof (induction writes arbitrary: s)
  case Nil
  show ?case by simp
next
  case (Cons w writes)
  obtain st chunk where w: "w = (st, chunk)" by (cases w)
  have "run_coroutine invoke (Calling (w # writes) res, s)
        = run_coroutine invoke (Calling writes res, write_stream st chunk s)"
    by (subst run_coroutine_unfold) (simp add: w)
  then show ?case using Cons.IH[of "write_stream st chunk s"] by (simp add: w)
qed

lemma execute_unfold:
  "execute_agent_task_async invoke query s =
     (case apply_rules query (announce_task query s) of
        (enhanced, s2) \<Rightarrow>
          if cancelled_reading s2 then (CancelledError, s2)
          else if cancelled_reading (announce_call s2)
            then (CancelledError, finally_idle (announce_call s2))
          else (case capture_agent_output invoke enhanced (announce_call s2) of
                  (res, s5) \<Rightarrow>
                    if cancel_pending s5 then (CancelledError, finally_idle s5)
                    else (case res of
                            Inl e \<Rightarrow> (Returned, finally_idle (report_error e s5))
                          | Inr content \<Rightarrow>
                              if cancelled_reading s5 then (CancelledError, finally_idle s5)
                              else (Returned, finally_idle (report_result content s5)))))"
proof -
  obtain enhanced s2 where a: "apply_rules query (announce_task query s) = (enhanced, s2)"
    by (cases "apply_rules query (announce_task query s)")
  have r1: "execute_agent_task_async invoke query s = run_coroutine invoke (AtFirstCheck enhanced, s2)"
    unfolding execute_agent_task_async_def
    by (subst run_coroutine_unfold) (simp add: a)
  show ?thesis
  proof (cases "cancelled_reading s2")
    case True
    then have "run_coroutine invoke (AtFirstCheck enhanced, s2) = (CancelledError, s2)"
      by (subst run_coroutine_unfold) simp
    with r1 a True show ?thesis by simp
  next
    case c1: False
    let ?s4 = "announce_call s2"
    have r2: "run_coroutine invoke (AtFirstCheck enhanced, s2)
              = run_coroutine invoke (AtSecondCheck enhanced, ?s4)"
      using c1 by (subst run_coroutine_unfold) simp
    show ?thesis
    proof (cases "cancelled_reading ?s4")
      case True
      then have "run_coroutine invoke (AtSecondCheck enhanced, ?s4)
                 = (CancelledError, finally_idle ?s4)"
        by (subst run_coroutine_unfold) simp
      with r1 r2 a c1 True show ?thesis by simp
    next
      case c2: False
      obtain writes res where i: "agent_invoke invoke enhanced ?s4 = (writes, res)"
        by (cases "agent_invoke invoke enhanced ?s4")
      let ?s5 = "end_capture res (adapter_writes writes (begin_capture (note_call enhanced ?s4)))"
      have cap: "capture_agent_output invoke enhanced ?s4 = (res, ?s5)"
        by (simp add: capture_agent_output_def i)
      have "run_coroutine invoke (AtSecondCheck enhanced, ?s4)
            = run_coroutine invoke (Calling writes res, begin_capture (note_call enhanced ?s4))"
        using c2 by (subst run_coroutine_unfold) (simp add: i)
      also have "\<dots> = run_coroutine invoke
            (Calling [] res, adapter_writes writes (begin_capture (note_call enhanced ?s4)))"
        by (rule run_coroutine_calling)
      also have "\<dots> =
            (if cancel_pending ?s5 then (CancelledError, finally_idle ?s5)
             else (case res of
                     Inl e \<Rightarrow> (Returned, finally_idle (report_error e ?s5))
                   | Inr content \<Rightarrow>
                       if cancelled_reading ?s5 then (CancelledError, finally_idle ?s5)
                       else (Returned, finally_idle (report_result content ?s5))))"
      proof (cases "cancel_pending ?s5")
        case True
        then show ?thesis by (subst run_coroutine_unfold) (simp add: Let_def)
      next
        case False
        show ?thesis
        proof (cases res)
          case (Inl e)
          with False show ?thesis by (subst run_coroutine_unfold) (simp add: Let_def)
        next
          case (Inr content)
          have "run_coroutine invoke
                  (Calling [] res, adapter_writes writes (begin_capture (note_call enhanced ?s4)))
                = run_coroutine invoke (AtLastCheck content, ?s5)"
            using False Inr by (subst run_coroutine_unfold) (simp add: Let_def)
          also have "\<dots> = (if cancelled_reading ?s5 then (CancelledError, finally_idle ?s5)
                            else (Returned, finally_idle (report_result content ?s5)))"
            by (subst run_coroutine_unfold) simp
          finally show ?thesis using False Inr by simp
        qed
      qed
      finally show ?thesis using r1 r2 a c1 c2 cap by simp
    qed
  qed
qed

lemma put_keeps [simp]:
  "agent (put m s) = agent s" "adapter_calls (put m s) = adapter_calls s"
  "current_task (put m s) = current_task s" "settings_rules (put m s) = settings_rules s"
  by (simp_all add: put_def)

lemma finally_idle_keeps [simp]:
  "agent (finally_idle s) = agent s" "adapter_calls (finally_idle s) = adapter_calls s"
  "current_task (finally_idle s) = current_task s"
  by (simp_all add: finally_idle_def)

lemma apply_rules_keeps [simp]:
  "agent (snd (apply_rules query s)) = agent s"
  "adapter_calls (snd (apply_rules query s)) = adapter_calls s"
  "current_task (snd (apply_rules query s)) = current_task s"
  "fst (apply_rules query s) = enhanced_query (settings_rules s) query"
  by (simp_all add: apply_rules_def)

lemma announce_keeps [simp]:
  "agent (announce_task query s) = agent s" "agent (announce_call s) = agent s"
  "adapter_calls (announce_task query s) = adapter_calls s"
  "adapter_calls (announce_call s) = adapter_calls s"
  "current_task (announce_task query s) = current_task s"
  "current_task (announce_call s) = current_task s"
  "settings_rules (announce_task query s) = settings_rules s"
  by (simp_all add: announce_task_def announce_call_def)

lemma report_keeps [simp]:
  "adapter_calls (report_result content s) = adapter_calls s"
  "adapter_calls (report_error e s) = adapter_calls s"
  "current_task (report_result content s) = current_task s"
  "current_task (report_error e s) = current_task s"
  by (simp_all add: report_result_def report_error_def Let_def split: option.splits)

lemma flush_stream_keeps [simp]:
  "adapter_calls (flush_stream st s) = adapter_calls s"
  "current_task (flush_stream st s) = current_task s"
  by (simp_all add: flush_stream_def tee_flush_def set_sys_stream_def
        split: option.splits stream.splits)

lemma adapter_writes_keeps [simp]:
  "adapter_calls (adapter_writes writes s) = adapter_calls s"
  "current_task (adapter_writes writes s) = current_task s"
  by (induction writes arbitrary: s) auto

lemma capture_parts_keep [simp]:
  "current_task (begin_capture s) = current_task s"
  "adapter_calls (begin_capture s) = adapter_calls s"
  "current_task (note_call query s) = current_task s"
  "current_task (end_capture res s) = current_task s"
  "adapter_calls (end_capture res s) = adapter_calls s"
  by (simp_all add: begin_capture_def note_call_def end_capture_def restore_streams_def
        split: sum.splits)

lemma readings_follow_task:
  "current_task s' = current_task s \<Longrightarrow> cancelled_reading s' = cancelled_reading s"
  "current_task s' = current_task s \<Longrightarrow> cancel_pending s' = cancel_pending s"
  by (simp_all add: cancelled_reading_def cancel_pending_def)

lemma capture_adapter_calls:
  "agent s \<Longrightarrow>
   adapter_calls (snd (capture_agent_output invoke query s)) = adapter_calls s @ [query]"
  by (simp add: capture_agent_output_def split_beta note_call_def)

lemma capture_current_task [simp]:
  "current_task (snd (capture_agent_output invoke query s)) = current_task s"
  by (simp add: capture_agent_output_def split_beta)

lemma execute_adapter_calls:
  assumes "agent s" and "\<not> cancelled_reading s"
  shows "adapter_calls (snd (execute_agent_task_async invoke query s))
         = adapter_calls s @ [enhanced_query (settings_rules s) query]"
proof -
  let ?s2 = "snd (apply_rules query (announce_task query s))"
  let ?enh = "enhanced_query (settings_rules s) query"
  have c: "\<not> cancelled_reading ?s2" "\<not> cancelled_reading (announce_call ?s2)"
    "\<not> cancelled_reading (snd (capture_agent_output invoke ?enh (announce_call ?s2)))"
    using assms(2) by (simp_all add: cancelled_reading_def)
  have a: "adapter_calls (snd (capture_agent_output invoke ?enh (announce_call ?s2)))
           = adapter_calls s @ [?enh]"
    using assms(1) by (simp add: capture_adapter_calls)
  show ?thesis
    using c a by (simp add: execute_unfold split_beta split: sum.splits)
qed

section \<open>The rule block\<close>

lemma number_rules_enumerate:
  "number_rules i rules acc
   = acc @ concat (map (\<lambda>(i, rule). str_nat i @ ''. '' @ rule @ [CHR 0x0A]) (enumerate i rules))"
  by (induction rules arbitrary: i acc) simp_all

lemma valid_rules_id:
  "list_all (\<lambda>r. r \<noteq> [] \<and> strip r = r) rules \<Longrightarrow> valid_rules rules = rules"
  by (induction rules) (simp_all add: valid_rules_def)

lemma spec_saved_rules_stripped:
  "list_all (\<lambda>r. r \<noteq> [] \<and> strip r = r) (spec_saved_rules entries)"
  by (auto simp: spec_saved_rules_def list_all_iff strip_idem)

lemma configured_rules_stripped:
  "rules = collect_rules entries [] \<or> rules = fst (load_rules s0) \<Longrightarrow>
   list_all (\<lambda>r. r \<noteq> [] \<and> strip r = r) rules"
  using spec_saved_rules_stripped[of entries] spec_load_rules_stripped[of "files s0 ''rules.json''"]
  by (auto simp: collect_rules_spec fst_load_rules load_rules_try_spec)

lemma enhanced_query_block:
  "valid_rules rules \<noteq> [] \<Longrightarrow>
   enhanced_query rules query
   = ''IMPORTANT: Follow these rules while completing the task:'' @ [CHR 0x0A]
     @ rules_block (valid_rules rules) @ [CHR 0x0A] @ ''Now complete this task: '' @ query"
  by (auto simp: enhanced_query_def number_rules_enumerate rules_block_def valid_rules_def)

text \<open>
  Claim C5. For rules configured through the settings dialog or loaded from the rules
  file, and not empty, the adapter receives the header line, one numbered line for each
  rule, an empty line, and \<^verbatim>\<open>Now complete this task:\<close> followed by the command; rules
  and command appear unchanged. This holds for the coroutine run on a task that is not
  cancelled, and so for the body of the worker thread.
\<close>

theorem rules_block_sent_to_adapter:
  assumes "settings_rules s = collect_rules entries [] \<or> settings_rules s = fst (load_rules s0)"
    and "settings_rules s \<noteq> []"
    and "agent s"
  shows "(\<not> cancelled_reading s \<longrightarrow>
      adapter_calls (snd (execute_agent_task_async invoke query s))
      = adapter_calls s @
        [''IMPORTANT: Follow these rules while completing the task:'' @ [CHR 0x0A]
         @ rules_block (settings_rules s) @ [CHR 0x0A] @ ''Now complete this task: '' @ query])
    \<and> adapter_calls (run_agent_task_async invoke query s)
      = adapter_calls s @
        [''IMPORTANT: Follow these rules while completing the task:'' @ [CHR 0x0A]
         @ rules_block (settings_rules s) @ [CHR 0x0A] @ ''Now complete this task: '' @ query]"
proof -
  have "valid_rules (settings_rules s) = settings_rules s"
    using configured_rules_stripped[OF assms(1)] by (rule valid_rules_id)
  with assms(2) have e: "enhanced_query (settings_rules s) query
      = ''IMPORTANT: Follow these rules while completing the task:'' @ [CHR 0x0A]
        @ rules_block (settings_rules s) @ [CHR 0x0A] @ ''Now complete this task: '' @ query"
    using enhanced_query_block[of "settings_rules s" query] by simp
  let ?s = "s\<lparr>current_task :=
               Some \<lparr>is_done = False, is_cancelled = False, cancel_requested = False\<rparr>\<rparr>"
  have "adapter_calls (snd (execute_agent_task_async invoke query ?s))
        = adapter_calls ?s @ [enhanced_query (settings_rules ?s) query]"
    using assms(3) by (intro execute_adapter_calls) (simp_all add: cancelled_reading_def)
  then have w: "adapter_calls (run_agent_task_async invoke query s)
        = adapter_calls s @ [enhanced_query (settings_rules s) query]"
    by (simp add: run_agent_task_async_def split_beta Let_def)
  show ?thesis
    using e w execute_adapter_calls[OF assms(3), of invoke query] by simp
qed

theorem rules_block_sent_to_adapter_witness:
  "adapter_calls (snd (execute_agent_task_async sample_invoke ''C''
                         (sample_gui\<lparr>settings_rules := [''A'', ''B'']\<rparr>)))
     = [''IMPORTANT: Follow these rules while completing the task:'' @ [CHR 0x0A]
        @ ''1. A'' @ [CHR 0x0A] @ ''2. B'' @ [CHR 0x0A] @ [CHR 0x0A] @ ''Now complete this task: C'']
   \<and> py_in ''1. A'' (last (adapter_calls (snd (execute_agent_task_async sample_invoke
        ''C'' (sample_gui\<lparr>settings_rules := [''A'', ''B'']\<rparr>)))))
   \<and> py_in ''2. B'' (last (adapter_calls (snd (execute_agent_task_async sample_invoke
        ''C'' (sample_gui\<lparr>settings_rules := [''A'', ''B'']\<rparr>)))))
   \<and> endswith (last (adapter_calls (snd (execute_agent_task_async sample_invoke
        ''C'' (sample_gui\<lparr>settings_rules := [''A'', ''B'']\<rparr>))))) ''C''"
proof -
  have cfg: "settings_rules (sample_gui\<lparr>settings_rules := [''A'', ''B'']\<rparr>)
               = collect_rules [''A'', ''B'', [], [], [] ] []
             \<or> settings_rules (sample_gui\<lparr>settings_rules := [''A'', ''B'']\<rparr>)
               = fst (load_rules sample_gui)"
    by (simp add: strip_def isspace_def)
  have d: "str_nat (Suc 0) = ''1''" "str_nat (Suc (Suc 0)) = ''2''"
    by code_simp+
  have blk: "rules_block [''A'', ''B''] = ''1. A'' @ [CHR 0x0A] @ ''2. B'' @ [CHR 0x0A]"
    by (simp add: rules_block_def d)
  have nc: "\<not> cancelled_reading (sample_gui\<lparr>settings_rules := [''A'', ''B'']\<rparr>)"
    by (simp add: cancelled_reading_def sample_gui_def)
  show ?thesis
    using rules_block_sent_to_adapter
            [OF cfg, of sample_invoke "''C''", THEN conjunct1, rule_format, OF _ _ nc] blk
    by (simp add: sample_gui_def endswith_def)
qed

section \<open>The checks and the request to cancel\<close>

lemma stop_task_reading: "cancelled_reading (stop_task E s) = cancelled_reading s"
  by (simp add: stop_task_def Let_def update_button_states_def cancelled_reading_def
        split: option.splits)

lemma coroutine_step_task:
  "current_task (snd (coroutine_step invoke (p, s))) = current_task s"
proof (cases p)
  case (Calling writes res)
  then show ?thesis
    by (cases writes) (auto simp: Let_def split: sum.splits)
qed (simp_all add: split_beta)

lemma no_check_ever_fires:
  "\<not> cancelled_reading s \<Longrightarrow>
   \<not> cancelled_reading (snd (run_with_stops E invoke stops (p, s)))"
proof (induction stops arbitrary: p s)
  case Nil
  then show ?case by simp
next
  case (Cons stop stops)
  let ?s = "if stop then stop_task E s else s"
  have "\<not> cancelled_reading ?s" using Cons.prems by (simp add: stop_task_reading)
  then have "\<not> cancelled_reading (snd (coroutine_step invoke (p, ?s)))"
    using readings_follow_task(1) [OF coroutine_step_task [of invoke p ?s] ] by simp
  then show ?case
    using Cons.IH[of "snd (coroutine_step invoke (p, ?s))" "fst (coroutine_step invoke (p, ?s))"]
    by simp
qed

lemma last_check_reports:
  "\<not> cancelled_reading s \<Longrightarrow>
   coroutine_step invoke (AtLastCheck content, s)
   = (Ended Returned, finally_idle (report_result content s))"
  by simp

lemma second_check_still_calls:
  "agent s \<Longrightarrow> \<not> cancelled_reading s \<Longrightarrow>
   adapter_calls (snd (coroutine_step invoke (AtSecondCheck enhanced, s)))
   = adapter_calls s @ [enhanced]"
  by (simp add: split_beta note_call_def)

lemma await_delivers_request:
  "cancel_pending s \<Longrightarrow> fst (coroutine_step invoke (Calling [] res, s)) = Ended CancelledError"
  using readings_follow_task(2)[of "end_capture res s" s]
  by (simp add: Let_def)

text \<open>
  Claim C2 says that a cancellation flag found set at the check after the adapter call
  makes the coroutine raise instead of reporting the result. The checks read
  \<^verbatim>\<open>cancelled()\<close> of the running task, which a request to cancel does not change: when
  Stop is pressed after the adapter has returned and before the last check, the request is
  pending on the task, and the coroutine still returns with the completion notice and the
  result on the queue.
\<close>

theorem stop_at_last_check_still_reports:
  "fst (run_with_stops sample_env sample_invoke
          [False, False, False, False, False, False, False]
          (AtStart ''open notepad'', worker_gui))
     = AtLastCheck (Some ''ok'')
   \<and> fst (run_with_stops sample_env sample_invoke
          [False, False, False, False, False, False, False, True]
          (AtStart ''open notepad'', worker_gui))
     = Ended Returned
   \<and> cancel_pending (snd (run_with_stops sample_env sample_invoke
          [False, False, False, False, False, False, False, True]
          (AtStart ''open notepad'', worker_gui)))
   \<and> take 3 (rev (message_queue (snd (run_with_stops sample_env sample_invoke
          [False, False, False, False, False, False, False, True]
          (AtStart ''open notepad'', worker_gui)))))
     = [(''update_buttons'', [], []),
        (''Agent'', [CHR 0xF0, CHR 0x9F, CHR 0x93, CHR 0x84] @ '' Final Result: ok'', ''agent''),
        (''Agent'', [CHR 0xE2, CHR 0x9C, CHR 0x85] @ '' Task completed successfully!'', ''agent'')]"
  by code_simp

section \<open>A failed save during an adapter call\<close>

text \<open>
  While the tee stands for \<^verbatim>\<open>sys.stdout\<close>, the line a failed save prints is forwarded
  to the queue like a line of the adapter.
\<close>

lemma failed_save_during_call_reaches_queue:
  "message_queue (save_chat_history failing_env (begin_capture sample_gui))
   = [(''Agent'', [CHR 0xE2, CHR 0x9D, CHR 0x8C]
                  @ '' Error saving chat history: Permission denied'', ''agent'')]"
  by code_simp

end
